theory Spec2Isabelle
  imports Complex_Main
begin

section \<open>The Tooltip component of \<^verbatim>\<open>src/components/Tooltip/Tooltip.js\<close>\<close>

text \<open>
  A shallow embedding of the React class component \<^verbatim>\<open>Tooltip\<close>: its instance (props,
  React state, instance fields) is a record, every event handler is a function from the
  instance and the event to the updated instance, and the calls a handler makes on its
  surroundings (\<^verbatim>\<open>evt.stopPropagation()\<close>, \<^verbatim>\<open>this.getTriggerPosition()\<close>) are returned as
  a list of effects.
\<close>

subsection \<open>The DOM as the component sees it\<close>

type_synonym node = nat

datatype DOMRect = DOMRect real real real real

text \<open>
  An element is known by the nodes its \<^verbatim>\<open>contains\<close> method answers \<^verbatim>\<open>true\<close> for
  (the element and its descendants). The tooltip body is the HTML element that
  \<^verbatim>\<open>FloatingMenu\<close> hands to \<^verbatim>\<open>menuRef\<close>; the trigger may be the icon's SVG element,
  which in IE11 has no \<^verbatim>\<open>contains\<close> method (the source's note at \<^verbatim>\<open>_handleHover\<close>).
\<close>

record element =
  subtree :: "node list"

record trigger_element = element +
  has_contains :: bool
  boundingClientRect :: DOMRect

definition contains :: "'a element_scheme \<Rightarrow> node \<Rightarrow> bool" where
  "contains el n = (n \<in> set (subtree el))"

record event =
  evt_type :: string
  relatedTarget :: "node option"
  target :: "node option"
  key :: "string option"
  which :: "int option"

subsection \<open>Props, state and the instance\<close>

datatype direction = DIRECTION_LEFT | DIRECTION_TOP | DIRECTION_RIGHT | DIRECTION_BOTTOM

text \<open>
  The value of a JSX attribute: a string, a boolean or \<^verbatim>\<open>undefined\<close>, a number, a method
  of the instance, a ref callback (named by the field it assigns), a direction, the
  trigger position, or an opaque prop value.
\<close>

datatype attr =
  AStr string
| AOptBool "bool option"
| AInt int
| AHandler string
| ARef string
| ADir direction
| APos "DOMRect option"
| AOpaque string
| AUndefined

text \<open>
  The value of a property lookup in an object literal: \<^verbatim>\<open>undefined\<close>, an own string
  value, or a member inherited from \<^verbatim>\<open>Object.prototype\<close> (an object, hence truthy and
  equal to no string).
\<close>

datatype lookup = Undefined | Str string | ProtoMember string

fun truthy :: "lookup \<Rightarrow> bool" where
  "truthy Undefined = False"
| "truthy (Str s) = (s \<noteq> [])"
| "truthy (ProtoMember k) = True"

text \<open>JavaScript truthiness of a value that is a boolean or \<^verbatim>\<open>undefined\<close>.\<close>

fun truthy_bool :: "bool option \<Rightarrow> bool" where
  "truthy_bool None = False"
| "truthy_bool (Some b) = b"

text \<open>
  The props as the parent passes them (\<open>None\<close>: not passed), and \<^verbatim>\<open>this.props\<close> after
  React has filled in \<^verbatim>\<open>defaultProps\<close>. \<^verbatim>\<open>children\<close>, \<^verbatim>\<open>triggerText\<close>, \<^verbatim>\<open>icon\<close> and
  \<^verbatim>\<open>menuOffset\<close> are opaque values that \<^verbatim>\<open>render\<close> only passes on; \<open>other_in\<close> holds
  the props the component does not know, which \<^verbatim>\<open>render\<close> spreads over the panel.
\<close>

record raw_props =
  open_in :: "bool option"
  direction_in :: "direction option"
  showIcon_in :: "bool option"
  iconDescription_in :: "string option"
  iconTitle_in :: "string option"
  clickToOpen_in :: "bool option"
  triggerId_in :: "string option"
  tooltipId_in :: "string option"
  className_in :: "string option"
  triggerClassName_in :: "string option"
  iconName_in :: "string option"
  has_icon_in :: bool
  tabIndex_in :: "int option"
  other_in :: "(string \<times> attr) list"

record props =
  open_prop :: bool
  direction_prop :: direction
  showIcon :: bool
  iconDescription :: string
  iconTitle :: string
  clickToOpen :: "bool option"
  triggerId_prop :: "string option"
  tooltipId_prop :: "string option"
  className :: "string option"
  triggerClassName :: "string option"
  iconName :: "string option"
  has_icon :: bool
  tabIndex :: "int option"
  other_props :: "(string \<times> attr) list"

definition or_default :: "'a option \<Rightarrow> 'a \<Rightarrow> 'a" where
  "or_default v d = (case v of None \<Rightarrow> d | Some x \<Rightarrow> x)"

definition defaultProps :: "raw_props \<Rightarrow> props" where
  "defaultProps rp =
     \<lparr> open_prop = or_default (open_in rp) False,
       direction_prop = or_default (direction_in rp) DIRECTION_BOTTOM,
       showIcon = or_default (showIcon_in rp) True,
       iconDescription = or_default (iconDescription_in rp) ''tooltip'',
       iconTitle = or_default (iconTitle_in rp) '''',
       clickToOpen = clickToOpen_in rp,
       triggerId_prop = triggerId_in rp,
       tooltipId_prop = tooltipId_in rp,
       className = className_in rp,
       triggerClassName = triggerClassName_in rp,
       iconName = iconName_in rp,
       has_icon = has_icon_in rp,
       tabIndex = tabIndex_in rp,
       other_props = other_in rp \<rparr>"

text \<open>
  \<^verbatim>\<open>this.state\<close>. The class starts with \<^verbatim>\<open>state = {}\<close>, so every field may be
  \<^verbatim>\<open>undefined\<close> (\<open>None\<close>).
\<close>

record tooltip_state =
  open_st :: "bool option"
  prevOpen :: "bool option"
  triggerPosition :: "DOMRect option"

definition initial_state :: tooltip_state where
  "initial_state = \<lparr> open_st = None, prevOpen = None, triggerPosition = None \<rparr>"

text \<open>
  The instance. \<open>hasContextMenu\<close> and \<open>tooltipEl\<close> are the source's \<^verbatim>\<open>_hasContextMenu\<close>
  and \<^verbatim>\<open>_tooltipEl\<close>; \<open>triggerId\<close> and \<open>tooltipId\<close> are the generated ids that
  \<^verbatim>\<open>render\<close> caches on the instance. \<open>pending\<close> is the state of
  \<^verbatim>\<open>_debouncedHandleHover\<close>: the arguments of the last call that has not run yet, with
  the milliseconds left until it runs.
\<close>

record tooltip =
  props :: props
  state :: tooltip_state
  hasContextMenu :: bool
  tooltipEl :: "element option"
  triggerEl :: "trigger_element option"
  triggerId :: "string option"
  tooltipId :: "string option"
  pending :: "((lookup \<times> node option) \<times> nat) option"

datatype effect = StopPropagation | GetTriggerPosition

subsection \<open>\<^verbatim>\<open>getDerivedStateFromProps\<close> and \<^verbatim>\<open>getTriggerPosition\<close>\<close>

record derived_state =
  derived_open :: bool
  derived_prevOpen :: bool

definition getDerivedStateFromProps :: "props \<Rightarrow> tooltip_state \<Rightarrow> derived_state option" where
  "getDerivedStateFromProps p st =
     (if prevOpen st = Some (open_prop p) then None
      else Some \<lparr> derived_open = open_prop p, derived_prevOpen = open_prop p \<rparr>)"

definition getTriggerPosition :: "tooltip \<Rightarrow> tooltip" where
  "getTriggerPosition this =
     (case triggerEl this of
        None \<Rightarrow> this
      | Some el \<Rightarrow>
          this\<lparr>state := (state this)\<lparr>triggerPosition := Some (boundingClientRect el)\<rparr>\<rparr>)"

text \<open>\<^verbatim>\<open>this.setState({ open: b })\<close>.\<close>

definition setState_open :: "bool \<Rightarrow> tooltip \<Rightarrow> tooltip" where
  "setState_open b this = this\<lparr>state := (state this)\<lparr>open_st := Some b\<rparr>\<rparr>"

subsection \<open>The hover handler and its debounced version\<close>

text \<open>The source's \<^verbatim>\<open>_handleHover\<close>.\<close>

definition shouldPreventClose_hover :: "tooltip \<Rightarrow> node option \<Rightarrow> bool" where
  "shouldPreventClose_hover this rt =
     (case rt of
        None \<Rightarrow> False
      | Some n \<Rightarrow>
          (case triggerEl this of
             None \<Rightarrow> False
           | Some el \<Rightarrow> has_contains el \<and> contains el n)
          \<or> (case tooltipEl this of
                None \<Rightarrow> False
              | Some el \<Rightarrow> contains el n))"

definition handleHover :: "tooltip \<Rightarrow> lookup \<Rightarrow> node option \<Rightarrow> tooltip" where
  "handleHover this st rt =
     (if st = Str ''over'' then setState_open True (getTriggerPosition this)
      else if shouldPreventClose_hover this rt then this
      else setState_open False this)"

text \<open>
  Modelled from the spec: \<^verbatim>\<open>debounce\<close> of the external library \<^verbatim>\<open>lodash.debounce\<close> is not
  in the sources. The spec has "a fixed debounce window (approximately 200ms) coalescing
  rapid hover enter/leave events": a call of the debounced function only records its
  arguments and restarts the window; once the window has passed with no further call,
  the wrapped function runs once, with the arguments of the last call.
\<close>

definition debounce_wait :: nat where
  "debounce_wait = 200"

definition debouncedHandleHover :: "tooltip \<Rightarrow> lookup \<Rightarrow> node option \<Rightarrow> tooltip" where
  "debouncedHandleHover this st rt = this\<lparr>pending := Some ((st, rt), debounce_wait)\<rparr>"

text \<open>\<open>elapse ms\<close>: \<open>ms\<close> milliseconds pass in which no handler of the component is called.\<close>

definition elapse :: "nat \<Rightarrow> tooltip \<Rightarrow> tooltip" where
  "elapse ms this =
     (case pending this of
        None \<Rightarrow> this
      | Some (args, due) \<Rightarrow>
          if due \<le> ms then handleHover (this\<lparr>pending := None\<rparr>) (fst args) (snd args)
          else this\<lparr>pending := Some (args, due - ms)\<rparr>)"

subsection \<open>\<^verbatim>\<open>handleMouse\<close>, \<^verbatim>\<open>handleClickOutside\<close>, \<^verbatim>\<open>handleKeyPress\<close>\<close>

definition state_table :: "(string \<times> string) list" where
  "state_table =
     [(''mouseover'', ''over''), (''mouseout'', ''out''), (''focus'', ''over''),
      (''blur'', ''out''), (''click'', ''click'')]"

definition Object_prototype_keys :: "string list" where
  "Object_prototype_keys =
     [''constructor'', ''hasOwnProperty'', ''isPrototypeOf'', ''propertyIsEnumerable'',
      ''toLocaleString'', ''toString'', ''valueOf'', ''__defineGetter__'',
      ''__defineSetter__'', ''__lookupGetter__'', ''__lookupSetter__'', ''__proto__'']"

definition lookup_state :: "string \<Rightarrow> lookup" where
  "lookup_state ty =
     (case map_of state_table ty of
        Some s \<Rightarrow> Str s
      | None \<Rightarrow> if ty \<in> set Object_prototype_keys then ProtoMember ty else Undefined)"

definition handleMouse :: "tooltip \<Rightarrow> event \<Rightarrow> tooltip \<times> effect list" where
  "handleMouse this evt =
     (let st = lookup_state (evt_type evt);
          hadContextMenu = hasContextMenu this;
          this1 = this\<lparr>hasContextMenu := (evt_type evt = ''contextmenu'')\<rparr>
      in if truthy_bool (clickToOpen (props this1)) then
           (if st = Str ''click'' then
              (let shouldOpen = (\<not> truthy_bool (open_st (state this1)))
               in if shouldOpen
                  then (setState_open shouldOpen (getTriggerPosition this1),
                        [StopPropagation, GetTriggerPosition])
                  else (setState_open shouldOpen this1, [StopPropagation]))
            else (this1, []))
         else if truthy st \<and> (st \<noteq> Str ''out'' \<or> \<not> hadContextMenu)
           then (debouncedHandleHover this1 st (relatedTarget evt), [])
           else (this1, []))"

text \<open>The handler may be called with no event at all (\<open>None\<close>).\<close>

definition shouldPreventClose_outside :: "tooltip \<Rightarrow> event option \<Rightarrow> bool" where
  "shouldPreventClose_outside this evt =
     (case evt of
        None \<Rightarrow> False
      | Some e \<Rightarrow>
          (case target e of
             None \<Rightarrow> False
           | Some n \<Rightarrow>
               (case tooltipEl this of
                  None \<Rightarrow> False
                | Some el \<Rightarrow> contains el n)))"

definition handleClickOutside :: "tooltip \<Rightarrow> event option \<Rightarrow> tooltip" where
  "handleClickOutside this evt =
     (if shouldPreventClose_outside this evt then this else setState_open False this)"

text \<open>\<^verbatim>\<open>evt.key || evt.which\<close>: the key name unless it is missing or empty.\<close>

datatype keyval = KeyUndefined | KeyStr string | KeyNum int

definition key_or_which :: "event \<Rightarrow> keyval" where
  "key_or_which evt =
     (case key evt of
        Some s \<Rightarrow> if s \<noteq> [] then KeyStr s else (case which evt of None \<Rightarrow> KeyUndefined | Some n \<Rightarrow> KeyNum n)
      | None \<Rightarrow> (case which evt of None \<Rightarrow> KeyUndefined | Some n \<Rightarrow> KeyNum n))"

definition handleKeyPress :: "tooltip \<Rightarrow> event \<Rightarrow> tooltip \<times> effect list" where
  "handleKeyPress this evt =
     (let k = key_or_which evt
      in if k = KeyStr ''Enter'' \<or> k = KeyNum 13 \<or> k = KeyStr '' '' \<or> k = KeyNum 32
         then (setState_open (\<not> truthy_bool (open_st (state this))) this, [StopPropagation])
         else (this, []))"

subsection \<open>The lifecycle: what React does with the component\<close>

text \<open>
  The constructor sets the class fields (\<^verbatim>\<open>state = {}\<close>, \<^verbatim>\<open>_hasContextMenu = false\<close>,
  \<^verbatim>\<open>_tooltipEl = null\<close>). React calls \<^verbatim>\<open>getDerivedStateFromProps\<close> before every render,
  the first one included, and merges a result other than \<^verbatim>\<open>null\<close> into the state.
\<close>

definition constructor :: "props \<Rightarrow> tooltip" where
  "constructor p =
     \<lparr> props = p, state = initial_state, hasContextMenu = False, tooltipEl = None,
       triggerEl = None, triggerId = None, tooltipId = None, pending = None \<rparr>"

definition applyDerivedState :: "tooltip \<Rightarrow> tooltip" where
  "applyDerivedState this =
     (case getDerivedStateFromProps (props this) (state this) of
        None \<Rightarrow> this
      | Some d \<Rightarrow>
          this\<lparr>state := (state this)\<lparr>open_st := Some (derived_open d),
                                     prevOpen := Some (derived_prevOpen d)\<rparr>\<rparr>)"

definition mount :: "raw_props \<Rightarrow> tooltip" where
  "mount rp = applyDerivedState (constructor (defaultProps rp))"

definition receiveProps :: "raw_props \<Rightarrow> tooltip \<Rightarrow> tooltip" where
  "receiveProps rp this = applyDerivedState (this\<lparr>props := defaultProps rp\<rparr>)"

text \<open>
  Everything that can happen to a mounted component: the parent renders it again with
  props, one of its handlers is called, time passes, React attaches or detaches the
  trigger element or the tooltip body through the ref callbacks of \<^verbatim>\<open>render\<close>, or the
  animation frame requested by \<^verbatim>\<open>componentDidMount\<close> arrives.
\<close>

datatype action =
  ReceiveProps raw_props
| Mouse event
| KeyPress event
| ClickOutside "event option"
| Elapse nat
| AttachTrigger "trigger_element option"
| AttachTooltip "element option"
| AnimationFrame

fun step :: "tooltip \<Rightarrow> action \<Rightarrow> tooltip" where
  "step this (ReceiveProps rp) = receiveProps rp this"
| "step this (Mouse evt) = applyDerivedState (fst (handleMouse this evt))"
| "step this (KeyPress evt) = applyDerivedState (fst (handleKeyPress this evt))"
| "step this (ClickOutside evt) = applyDerivedState (handleClickOutside this evt)"
| "step this (Elapse ms) = applyDerivedState (elapse ms this)"
| "step this (AttachTrigger el) = this\<lparr>triggerEl := el\<rparr>"
| "step this (AttachTooltip el) = this\<lparr>tooltipEl := el\<rparr>"
| "step this AnimationFrame = applyDerivedState (getTriggerPosition this)"

definition run :: "tooltip \<Rightarrow> action list \<Rightarrow> tooltip" where
  "run this acts = foldl step this acts"

text \<open>The events that \<^verbatim>\<open>handleMouse\<close> has handled in a sequence of actions, in order.\<close>

fun mouse_events :: "action list \<Rightarrow> event list" where
  "mouse_events [] = []"
| "mouse_events (Mouse e # acts) = e # mouse_events acts"
| "mouse_events (a # acts) = mouse_events acts"

text \<open>
  The state is in step with the props when \<^verbatim>\<open>prevOpen\<close> holds the \<^verbatim>\<open>open\<close> prop of the
  last render.
\<close>

definition in_sync :: "tooltip \<Rightarrow> bool" where
  "in_sync this = (prevOpen (state this) = Some (open_prop (props this)))"

subsection \<open>\<^verbatim>\<open>render\<close>\<close>

text \<open>
  The rendered output is a tree of React elements. \<^verbatim>\<open>children\<close> and \<^verbatim>\<open>triggerText\<close> are
  opaque slots. A child that is \<^verbatim>\<open>false\<close> or \<^verbatim>\<open>undefined\<close> (the value of
  \<^verbatim>\<open>open && ...\<close> when \<^verbatim>\<open>open\<close> is falsy) renders nothing and is left out of the list
  of children.
\<close>

datatype vnode = Element string "(string \<times> attr) list" "vnode list" | Slot string

fun join_names :: "string list \<Rightarrow> string" where
  "join_names [] = []"
| "join_names [s] = s"
| "join_names (s # t # ts) = s @ '' '' @ join_names (t # ts)"

text \<open>
  Modelled from the spec: \<^verbatim>\<open>classNames\<close> of the external library \<^verbatim>\<open>classnames\<close> is not in
  the sources; it joins its truthy arguments with single spaces. An argument
  \<^verbatim>\<open>{ [name]: cond }\<close> is passed here as \<open>Some name\<close> when \<open>cond\<close> is truthy and as
  \<open>None\<close> otherwise.
\<close>

definition classNames :: "string option list \<Rightarrow> string" where
  "classNames args = join_names (filter (\<lambda>s. s \<noteq> []) (List.map_filter id args))"

text \<open>
  The ids: a prop that is not \<^verbatim>\<open>undefined\<close> wins; otherwise the id cached on the instance,
  or a fresh one from the given random suffix, which is then cached.
\<close>

definition cached_or :: "string option \<Rightarrow> string \<Rightarrow> string" where
  "cached_or cached fresh =
     (case cached of None \<Rightarrow> fresh | Some i \<Rightarrow> if i \<noteq> [] then i else fresh)"

definition render_triggerId :: "string \<Rightarrow> tooltip \<Rightarrow> string \<times> tooltip" where
  "render_triggerId rnd this =
     (case triggerId_prop (props this) of
        Some i \<Rightarrow> (i, this)
      | None \<Rightarrow>
          (let i = cached_or (triggerId this) (''__carbon-tooltip-trigger_'' @ rnd)
           in (i, this\<lparr>triggerId := Some i\<rparr>)))"

definition render_tooltipId :: "string \<Rightarrow> tooltip \<Rightarrow> string \<times> tooltip" where
  "render_tooltipId rnd this =
     (case tooltipId_prop (props this) of
        Some i \<Rightarrow> (i, this)
      | None \<Rightarrow>
          (let i = cached_or (tooltipId this) (''__carbon-tooltip_'' @ rnd)
           in (i, this\<lparr>tooltipId := Some i\<rparr>)))"

definition hover_handlers :: "(string \<times> attr) list" where
  "hover_handlers =
     [(''onMouseOver'', AHandler ''handleMouse''), (''onMouseOut'', AHandler ''handleMouse''),
      (''onFocus'', AHandler ''handleMouse''), (''onBlur'', AHandler ''handleMouse'')]"

definition ariaOwnsProps :: "bool option \<Rightarrow> string \<Rightarrow> (string \<times> attr) list" where
  "ariaOwnsProps opn tooltip_id =
     (if \<not> truthy_bool opn then [] else [(''aria-owns'', AStr tooltip_id)])"

definition icon_attr :: "props \<Rightarrow> attr" where
  "icon_attr p =
     (if \<not> has_icon p \<and> \<not> (case iconName p of None \<Rightarrow> False | Some n \<Rightarrow> n \<noteq> [])
      then AOpaque ''iconInfoGlyph''
      else if has_icon p then AOpaque ''icon'' else AUndefined)"

definition render_trigger :: "string \<Rightarrow> tooltip \<Rightarrow> string \<Rightarrow> string \<Rightarrow> vnode" where
  "render_trigger prefix this trigger_id tooltip_id =
     (let p = props this;
          opn = open_st (state this);
          triggerClasses = classNames [Some (prefix @ ''--tooltip__trigger''), triggerClassName p];
          tab = or_default (tabIndex p) 0
      in if showIcon p then
           Element ''div'' [(''className'', AStr triggerClasses)]
             [Slot ''triggerText'',
              Element ''div''
                ([(''id'', AStr trigger_id), (''role'', AStr ''button''), (''tabIndex'', AInt tab),
                  (''onClick'', AHandler ''handleMouse''),
                  (''onKeyDown'', AHandler ''handleKeyPress'')]
                 @ hover_handlers
                 @ [(''aria-haspopup'', AStr ''true''), (''aria-expanded'', AOptBool opn)]
                 @ ariaOwnsProps opn tooltip_id)
                [Element ''Icon''
                   [(''icon'', icon_attr p),
                    (''name'', (case iconName p of None \<Rightarrow> AUndefined | Some n \<Rightarrow> AStr n)),
                    (''description'', AStr (iconDescription p)),
                    (''iconTitle'', AStr (iconTitle p)),
                    (''iconRef'', ARef ''triggerEl'')]
                   []]]
         else
           Element ''div''
             ([(''tabIndex'', AInt tab), (''id'', AStr trigger_id),
               (''className'', AStr triggerClasses), (''ref'', ARef ''triggerEl'')]
              @ hover_handlers
              @ [(''aria-haspopup'', AStr ''true''), (''aria-expanded'', AOptBool opn)]
              @ ariaOwnsProps opn tooltip_id
              @ [(''role'', AStr ''tooltip'')])
             [Slot ''triggerText''])"

definition render_panel :: "string \<Rightarrow> tooltip \<Rightarrow> string \<Rightarrow> string \<Rightarrow> vnode" where
  "render_panel prefix this trigger_id tooltip_id =
     (let p = props this;
          opn = open_st (state this);
          tooltipClasses =
            classNames [Some (prefix @ ''--tooltip''),
                        (if truthy_bool opn then Some (prefix @ ''--tooltip--shown'') else None),
                        className p]
      in Element ''FloatingMenu''
           [(''target'', AHandler ''_getTarget''),
            (''menuPosition'', APos (triggerPosition (state this))),
            (''menuDirection'', ADir (direction_prop p)),
            (''menuOffset'', AOpaque ''menuOffset''),
            (''menuRef'', ARef ''_tooltipEl'')]
           [Element ''div''
              ([(''id'', AStr tooltip_id), (''className'', AStr tooltipClasses)]
               @ ((''open'', AOptBool (Some (open_prop p))) # other_props p)
               @ [(''data-floating-menu-direction'', ADir (direction_prop p)),
                  (''aria-labelledby'', AStr trigger_id)]
               @ hover_handlers
               @ [(''onContextMenu'', AHandler ''handleMouse'')])
              [Element ''span'' [(''className'', AStr (prefix @ ''--tooltip__caret''))] [],
               Slot ''children'']])"

text \<open>
  \<open>render prefix rnd this\<close>: \<open>prefix\<close> is \<^verbatim>\<open>settings.prefix\<close> of \<^verbatim>\<open>carbon-components\<close>,
  \<open>rnd\<close> the two strings that \<^verbatim>\<open>Math.random().toString(36).substr(2)\<close> would give. The
  result is the list of children of the fragment and the instance with its cached ids.
\<close>

definition render :: "string \<Rightarrow> string \<times> string \<Rightarrow> tooltip \<Rightarrow> vnode list \<times> tooltip" where
  "render prefix rnd this =
     (let (trigger_id, this1) = render_triggerId (fst rnd) this;
          (tooltip_id, this2) = render_tooltipId (snd rnd) this1
      in ([Element ''ClickListener'' [(''onClickOutside'', AHandler ''handleClickOutside'')]
             [render_trigger prefix this2 trigger_id tooltip_id]]
          @ (if truthy_bool (open_st (state this2))
             then [render_panel prefix this2 trigger_id tooltip_id] else []),
          this2))"

text \<open>Whether an element with the given tag occurs in a rendered tree.\<close>

fun has_element :: "string \<Rightarrow> vnode \<Rightarrow> bool" where
  "has_element tag (Element t attrs cs) = (t = tag \<or> list_ex (has_element tag) cs)"
| "has_element tag (Slot s) = False"

text \<open>The floating panel is the \<^verbatim>\<open>FloatingMenu\<close> element.\<close>

definition panel_rendered :: "vnode list \<Rightarrow> bool" where
  "panel_rendered out = list_ex (has_element ''FloatingMenu'') out"

subsection \<open>\<^verbatim>\<open>getMenuOffset\<close>\<close>

text \<open>
  A JavaScript number is \<^verbatim>\<open>NaN\<close> or the real number it denotes. The numbers parsed here
  are integers; the rounding of \<^verbatim>\<open>Math.sqrt\<close> to a double, and of digit strings too long
  for a double, is not modelled.
\<close>

datatype jsnum = NaN | Num real

fun falsy :: "jsnum \<Rightarrow> bool" where
  "falsy NaN = True"
| "falsy (Num x) = (x = 0)"

definition is_digit :: "char \<Rightarrow> bool" where
  "is_digit c = (c \<in> set ''0123456789'')"

definition digits_value :: "string \<Rightarrow> nat" where
  "digits_value ds = foldl (\<lambda>acc c. 10 * acc + (of_char c - 48)) 0 ds"

text \<open>
  \<^verbatim>\<open>(/^([\d-]+)px$/.exec(v) || [])[1]\<close>: the text before a final \<^verbatim>\<open>px\<close> when it is a
  non-empty run of digits and hyphens, \<^verbatim>\<open>undefined\<close> (\<open>None\<close>) otherwise.
\<close>

definition px_match :: "string \<Rightarrow> string option" where
  "px_match v =
     (let n = length v; body = take (n - 2) v
      in if 3 \<le> n \<and> drop (n - 2) v = ''px'' \<and> list_all (\<lambda>c. is_digit c \<or> c = CHR ''-'') body
         then Some body else None)"

text \<open>
  \<^verbatim>\<open>Number\<close> on \<^verbatim>\<open>undefined\<close> and on a non-empty string of digits and hyphens: such a
  string is a number exactly when it is a run of digits with at most one hyphen, in front.
\<close>

definition Number_of :: "string option \<Rightarrow> jsnum" where
  "Number_of v =
     (case v of
        None \<Rightarrow> NaN
      | Some s \<Rightarrow>
          (case s of
             [] \<Rightarrow> Num 0
           | c # cs \<Rightarrow>
               if c = CHR ''-''
               then (if cs \<noteq> [] \<and> list_all is_digit cs then Num (- real (digits_value cs)) else NaN)
               else (if list_all is_digit s then Num (real (digits_value s)) else NaN)))"

text \<open>The computed style of the arrow: \<^verbatim>\<open>arrowStyle.getPropertyValue\<close>.\<close>

type_synonym css_style = "string \<Rightarrow> string"

record offset =
  left_off :: real
  top_off :: real

definition arrowPositionProp :: "direction \<Rightarrow> string" where
  "arrowPositionProp d =
     (case d of
        DIRECTION_LEFT \<Rightarrow> ''right''
      | DIRECTION_TOP \<Rightarrow> ''bottom''
      | DIRECTION_RIGHT \<Rightarrow> ''left''
      | DIRECTION_BOTTOM \<Rightarrow> ''top'')"

definition menuPositionAdjustmentProp :: "direction \<Rightarrow> string" where
  "menuPositionAdjustmentProp d =
     (case d of
        DIRECTION_LEFT \<Rightarrow> ''left''
      | DIRECTION_TOP \<Rightarrow> ''top''
      | DIRECTION_RIGHT \<Rightarrow> ''left''
      | DIRECTION_BOTTOM \<Rightarrow> ''top'')"

definition set_offset :: "string \<Rightarrow> real \<Rightarrow> offset \<Rightarrow> offset" where
  "set_offset name v off =
     (if name = ''left'' then off\<lparr>left_off := v\<rparr>
      else if name = ''top'' then off\<lparr>top_off := v\<rparr>
      else off)"

text \<open>
  \<open>getMenuOffset arrowStyle menuDirection\<close>, with the computed \<^verbatim>\<open>:before\<close> style of the menu
  body in place of the menu body itself. \<open>None\<close> is the \<^verbatim>\<open>undefined\<close> that the function
  returns when it falls off its end.
\<close>

definition getMenuOffset :: "css_style \<Rightarrow> direction \<Rightarrow> offset option" where
  "getMenuOffset arrowStyle menuDirection =
     (let parsed_arrow = Number_of (px_match (arrowStyle (arrowPositionProp menuDirection)));
          parsed_width = Number_of (px_match (arrowStyle ''border-bottom-width''));
          value_arrow = (if falsy parsed_arrow then Num (- 6) else parsed_arrow)
      in case (value_arrow, parsed_width) of
           (Num arrowPosition, Num borderBottomWidth) \<Rightarrow>
             Some (set_offset (menuPositionAdjustmentProp menuDirection)
                     (sqrt (borderBottomWidth ^ 2 * 2) - arrowPosition)
                     \<lparr> left_off = 0, top_off = 0 \<rparr>)
         | _ \<Rightarrow> None)"

subsection \<open>Concrete instances, events and styles\<close>

definition sample_trigger :: trigger_element where
  "sample_trigger =
     \<lparr> subtree = [1, 2], has_contains = True, boundingClientRect = DOMRect 10 20 16 16 \<rparr>"

definition sample_panel :: element where
  "sample_panel = \<lparr> subtree = [5, 6] \<rparr>"

definition no_props :: raw_props where
  "no_props =
     \<lparr> open_in = None, direction_in = None, showIcon_in = None,
       iconDescription_in = None, iconTitle_in = None, clickToOpen_in = None,
       triggerId_in = None, tooltipId_in = None, className_in = None,
       triggerClassName_in = None, iconName_in = None, has_icon_in = False,
       tabIndex_in = None, other_in = [] \<rparr>"

definition mouse_event :: "string \<Rightarrow> node option \<Rightarrow> event" where
  "mouse_event ty rt =
     \<lparr> evt_type = ty, relatedTarget = rt, target = Some 1, key = None, which = None \<rparr>"

definition key_event :: "string option \<Rightarrow> int option \<Rightarrow> event" where
  "key_event k w =
     \<lparr> evt_type = ''keydown'', relatedTarget = None, target = Some 1, key = k, which = w \<rparr>"

text \<open>A closed tooltip in hover mode, mounted with no props, its trigger attached.\<close>

definition hover_tooltip :: tooltip where
  "hover_tooltip = step (mount no_props) (AttachTrigger (Some sample_trigger))"

text \<open>The same tooltip open, with its panel attached.\<close>

definition open_tooltip :: tooltip where
  "open_tooltip =
     run hover_tooltip
       [Mouse (mouse_event ''mouseover'' None), Elapse 200, AttachTooltip (Some sample_panel)]"

text \<open>The open tooltip after a \<^verbatim>\<open>contextmenu\<close> event on its panel.\<close>

definition context_tooltip :: tooltip where
  "context_tooltip = step open_tooltip (Mouse (mouse_event ''contextmenu'' None))"

definition click_tooltip :: tooltip where
  "click_tooltip =
     step (mount (no_props\<lparr>clickToOpen_in := Some True\<rparr>)) (AttachTrigger (Some sample_trigger))"

definition sample_style :: css_style where
  "sample_style name =
     (if name = ''border-bottom-width'' then ''5px''
      else if name = ''top'' then ''auto''
      else if name = ''bottom'' then ''-7px''
      else [])"

lemmas model_defs =
  handleMouse_def lookup_state_def state_table_def Object_prototype_keys_def
  setState_open_def getTriggerPosition_def debouncedHandleHover_def debounce_wait_def
  handleHover_def shouldPreventClose_hover_def contains_def elapse_def
  handleClickOutside_def shouldPreventClose_outside_def handleKeyPress_def key_or_which_def
  getDerivedStateFromProps_def applyDerivedState_def mount_def receiveProps_def
  constructor_def initial_state_def defaultProps_def or_default_def

lemmas sample_defs =
  sample_trigger_def sample_panel_def no_props_def hover_tooltip_def open_tooltip_def
  click_tooltip_def context_tooltip_def mouse_event_def key_event_def run_def

section \<open>Properties\<close>

subsection \<open>What \<^verbatim>\<open>handleMouse\<close> does, case by case\<close>

lemma lookup_state_click: "lookup_state ty = Str ''click'' \<longleftrightarrow> ty = ''click''"
  by (auto simp add: lookup_state_def state_table_def split: option.splits if_splits)

lemma lookup_state_over:
  "ty \<in> {''mouseover'', ''focus''} \<Longrightarrow> lookup_state ty = Str ''over''"
  by (auto simp add: lookup_state_def state_table_def)

lemma lookup_state_out:
  "ty \<in> {''mouseout'', ''blur''} \<Longrightarrow> lookup_state ty = Str ''out''"
  by (auto simp add: lookup_state_def state_table_def)

lemma lookup_state_contextmenu: "lookup_state ''contextmenu'' = Undefined"
  by (simp add: lookup_state_def state_table_def Object_prototype_keys_def)

lemma handleMouse_props: "props (fst (handleMouse this evt)) = props this"
  by (simp add: handleMouse_def Let_def setState_open_def getTriggerPosition_def
      debouncedHandleHover_def split: option.splits)

lemma handleMouse_hasContextMenu:
  "hasContextMenu (fst (handleMouse this evt)) = (evt_type evt = ''contextmenu'')"
  by (simp add: handleMouse_def Let_def setState_open_def getTriggerPosition_def
      debouncedHandleHover_def split: option.splits)

lemma handleMouse_hover_contextmenu:
  "\<not> truthy_bool (clickToOpen (props this)) \<Longrightarrow> evt_type evt = ''contextmenu'' \<Longrightarrow>
     handleMouse this evt = (this\<lparr>hasContextMenu := True\<rparr>, [])"
  by (simp add: handleMouse_def Let_def lookup_state_contextmenu)

lemma handleMouse_hover_out:
  "\<not> truthy_bool (clickToOpen (props this)) \<Longrightarrow> evt_type evt \<in> {''mouseout'', ''blur''} \<Longrightarrow>
     handleMouse this evt =
       (if hasContextMenu this then (this\<lparr>hasContextMenu := False\<rparr>, [])
        else (this\<lparr>hasContextMenu := False,
                    pending := Some ((Str ''out'', relatedTarget evt), debounce_wait)\<rparr>, []))"
  by (auto simp add: handleMouse_def Let_def lookup_state_out debouncedHandleHover_def)

lemma handleMouse_hover_over:
  "\<not> truthy_bool (clickToOpen (props this)) \<Longrightarrow> evt_type evt \<in> {''mouseover'', ''focus''} \<Longrightarrow>
     handleMouse this evt =
       (this\<lparr>hasContextMenu := False,
              pending := Some ((Str ''over'', relatedTarget evt), debounce_wait)\<rparr>, [])"
  by (auto simp add: handleMouse_def Let_def lookup_state_over debouncedHandleHover_def)

subsection \<open>Rendering\<close>

lemma render_open_unchanged:
  "open_st (state (snd (render_tooltipId r2 (snd (render_triggerId r1 this)))))
     = open_st (state this)"
  by (simp add: render_triggerId_def render_tooltipId_def Let_def split: option.splits)

lemma no_panel_in_trigger:
  "\<not> has_element ''FloatingMenu'' (render_trigger prefix this a b)"
  by (simp add: render_trigger_def Let_def)

lemma panel_in_panel:
  "has_element ''FloatingMenu'' (render_panel prefix this a b)"
  by (simp add: render_panel_def Let_def)

text \<open>
  C1. For every render of the component (whatever the instance, the class prefix and the
  random id suffixes), the floating panel, the \<^verbatim>\<open>FloatingMenu\<close> element, occurs in the
  rendered output if and only if the \<^verbatim>\<open>open\<close> field of the state is \<^verbatim>\<open>true\<close>.
\<close>

theorem render_panel_iff_open:
  "panel_rendered (fst (render prefix rnd this)) \<longleftrightarrow> open_st (state this) = Some True"
proof -
  obtain a this1 where t1: "render_triggerId (fst rnd) this = (a, this1)"
    by (cases "render_triggerId (fst rnd) this")
  obtain b this2 where t2: "render_tooltipId (snd rnd) this1 = (b, this2)"
    by (cases "render_tooltipId (snd rnd) this1")
  have o: "open_st (state this2) = open_st (state this)"
    using render_open_unchanged [of "snd rnd" "fst rnd" this] t1 t2 by simp
  have "panel_rendered (fst (render prefix rnd this)) \<longleftrightarrow> truthy_bool (open_st (state this))"
    by (simp add: render_def panel_rendered_def t1 t2 o no_panel_in_trigger panel_in_panel)
  also have "\<dots> \<longleftrightarrow> open_st (state this) = Some True"
    by (cases "open_st (state this)") auto
  finally show ?thesis .
qed

theorem render_panel_iff_open_witness:
  "panel_rendered (fst (render ''bx'' (''r1'', ''r2'') open_tooltip))
   \<and> open_st (state open_tooltip) = Some True
   \<and> \<not> panel_rendered (fst (render ''bx'' (''r1'', ''r2'') hover_tooltip))
   \<and> open_st (state hover_tooltip) = Some False"
  using render_panel_iff_open [of "''bx''" "(''r1'', ''r2'')" open_tooltip]
    render_panel_iff_open [of "''bx''" "(''r1'', ''r2'')" hover_tooltip]
  by (simp add: model_defs sample_defs Let_def)

subsection \<open>Click mode\<close>

text \<open>
  C3. When \<^verbatim>\<open>clickToOpen\<close> is true, a \<^verbatim>\<open>click\<close> event negates the open state in the
  handler itself (the debounced handler is not called: what is pending stays as it was),
  calls \<^verbatim>\<open>stopPropagation\<close> on the event, and calls \<^verbatim>\<open>getTriggerPosition\<close> exactly
  when the new open state is \<^verbatim>\<open>true\<close>; the trigger position then is the bounding
  rectangle of the trigger element, if there is one.
\<close>

theorem handleMouse_click_toggles:
  assumes "truthy_bool (clickToOpen (props this))" and "evt_type evt = ''click''"
  shows "open_st (state (fst (handleMouse this evt))) = Some (\<not> truthy_bool (open_st (state this)))
       \<and> pending (fst (handleMouse this evt)) = pending this
       \<and> StopPropagation \<in> set (snd (handleMouse this evt))
       \<and> (GetTriggerPosition \<in> set (snd (handleMouse this evt))
            \<longleftrightarrow> open_st (state (fst (handleMouse this evt))) = Some True)
       \<and> triggerPosition (state (fst (handleMouse this evt))) =
           (if open_st (state (fst (handleMouse this evt))) = Some True
            then (case triggerEl this of
                    None \<Rightarrow> triggerPosition (state this)
                  | Some el \<Rightarrow> Some (boundingClientRect el))
            else triggerPosition (state this))"
  using assms
  by (simp add: handleMouse_def lookup_state_click setState_open_def getTriggerPosition_def
      Let_def split: option.splits)

theorem handleMouse_click_toggles_witness:
  "truthy_bool (clickToOpen (props click_tooltip))
   \<and> open_st (state (fst (handleMouse click_tooltip (mouse_event ''click'' None)))) = Some True
   \<and> snd (handleMouse click_tooltip (mouse_event ''click'' None))
       = [StopPropagation, GetTriggerPosition]
   \<and> triggerPosition (state (fst (handleMouse click_tooltip (mouse_event ''click'' None))))
       = Some (DOMRect 10 20 16 16)"
  using handleMouse_click_toggles [of click_tooltip "mouse_event ''click'' None"]
  by (simp add: model_defs sample_defs Let_def)

text \<open>
  C10. When \<^verbatim>\<open>clickToOpen\<close> is true, a \<^verbatim>\<open>mouseover\<close>, \<^verbatim>\<open>mouseout\<close>, \<^verbatim>\<open>focus\<close>, \<^verbatim>\<open>blur\<close> or
  \<^verbatim>\<open>contextmenu\<close> event changes nothing of the state, leaves the debounced handler as it
  was and has no effect on the event; more generally, \<^verbatim>\<open>handleMouse\<close> then does nothing
  on an event that is not a \<^verbatim>\<open>click\<close>, but record whether it was a \<^verbatim>\<open>contextmenu\<close>.
\<close>

theorem handleMouse_click_mode_frame:
  assumes "truthy_bool (clickToOpen (props this))"
  shows "(evt_type evt \<in> {''mouseover'', ''mouseout'', ''focus'', ''blur'', ''contextmenu''} \<longrightarrow>
            state (fst (handleMouse this evt)) = state this
          \<and> pending (fst (handleMouse this evt)) = pending this
          \<and> snd (handleMouse this evt) = [])
       \<and> (evt_type evt \<noteq> ''click'' \<longrightarrow>
            handleMouse this evt =
              (this\<lparr>hasContextMenu := (evt_type evt = ''contextmenu'')\<rparr>, []))"
proof -
  have "evt_type evt \<noteq> ''click'' \<Longrightarrow>
          handleMouse this evt = (this\<lparr>hasContextMenu := (evt_type evt = ''contextmenu'')\<rparr>, [])"
    using assms by (simp add: handleMouse_def Let_def lookup_state_click)
  then show ?thesis by auto
qed

theorem handleMouse_click_mode_frame_witness:
  "truthy_bool (clickToOpen (props click_tooltip))
   \<and> state (fst (handleMouse click_tooltip (mouse_event ''mouseover'' None))) = state click_tooltip
   \<and> pending (fst (handleMouse click_tooltip (mouse_event ''mouseover'' None))) = None
   \<and> handleMouse click_tooltip (mouse_event ''contextmenu'' None) =
       (click_tooltip\<lparr>hasContextMenu := True\<rparr>, [])"
  using handleMouse_click_mode_frame [of click_tooltip "mouse_event ''mouseover'' None"]
    handleMouse_click_mode_frame [of click_tooltip "mouse_event ''contextmenu'' None"]
  by (simp add: model_defs sample_defs Let_def)

subsection \<open>Clicks outside and keys\<close>

text \<open>
  C5. A click outside the component sets the open state to \<^verbatim>\<open>false\<close> and changes nothing
  else, unless the target of the click is contained in the tooltip panel element; then
  the instance stays as it is.
\<close>

theorem handleClickOutside_closes:
  "handleClickOutside this evt =
     (if (\<exists>e n el. evt = Some e \<and> target e = Some n \<and> tooltipEl this = Some el
            \<and> n \<in> set (subtree el))
      then this
      else this\<lparr>state := (state this)\<lparr>open_st := Some False\<rparr>\<rparr>)"
  by (auto simp add: handleClickOutside_def shouldPreventClose_outside_def contains_def
      setState_open_def split: option.splits)

theorem handleClickOutside_closes_witness:
  "open_st (state (handleClickOutside open_tooltip (Some (mouse_event ''click'' None)))) = Some False
   \<and> handleClickOutside open_tooltip
        (Some ((mouse_event ''click'' None)\<lparr>target := Some 5\<rparr>)) = open_tooltip"
  using handleClickOutside_closes [of open_tooltip "Some (mouse_event ''click'' None)"]
    handleClickOutside_closes
      [of open_tooltip "Some ((mouse_event ''click'' None)\<lparr>target := Some 5\<rparr>)"]
  by (simp add: model_defs sample_defs Let_def)

text \<open>
  C6. A key press whose key (\<^verbatim>\<open>evt.key\<close>, or \<^verbatim>\<open>evt.which\<close> when \<^verbatim>\<open>evt.key\<close> is missing or
  empty) is \<^verbatim>\<open>'Enter'\<close>, \<^verbatim>\<open>' '\<close>, 13 or 32 negates the open state and stops the propagation
  of the event; any other key changes nothing and does not stop the propagation.
\<close>

theorem handleKeyPress_toggles:
  "(key_or_which evt \<in> {KeyStr ''Enter'', KeyStr '' '', KeyNum 13, KeyNum 32} \<longrightarrow>
      handleKeyPress this evt =
        (this\<lparr>state := (state this)\<lparr>open_st := Some (\<not> truthy_bool (open_st (state this)))\<rparr>\<rparr>,
         [StopPropagation]))
   \<and> (key_or_which evt \<notin> {KeyStr ''Enter'', KeyStr '' '', KeyNum 13, KeyNum 32} \<longrightarrow>
      handleKeyPress this evt = (this, []))
   \<and> key_or_which evt =
       (case key evt of
          Some s \<Rightarrow>
            if s \<noteq> [] then KeyStr s
            else (case which evt of None \<Rightarrow> KeyUndefined | Some n \<Rightarrow> KeyNum n)
        | None \<Rightarrow> (case which evt of None \<Rightarrow> KeyUndefined | Some n \<Rightarrow> KeyNum n))"
  by (auto simp add: handleKeyPress_def setState_open_def Let_def key_or_which_def)

theorem handleKeyPress_toggles_witness:
  "open_st (state (fst (handleKeyPress hover_tooltip (key_event (Some ''Enter'') None)))) = Some True
   \<and> snd (handleKeyPress hover_tooltip (key_event (Some ''Enter'') None)) = [StopPropagation]
   \<and> open_st (state (fst (handleKeyPress open_tooltip (key_event None (Some 32))))) = Some False
   \<and> handleKeyPress open_tooltip (key_event (Some ''a'') (Some 13)) = (open_tooltip, [])"
  using handleKeyPress_toggles [of "key_event (Some ''Enter'') None" hover_tooltip]
    handleKeyPress_toggles [of "key_event None (Some 32)" open_tooltip]
    handleKeyPress_toggles [of "key_event (Some ''a'') (Some 13)" open_tooltip]
  by (simp add: model_defs sample_defs Let_def)

subsection \<open>The context menu\<close>

lemma applyDerivedState_hasContextMenu:
  "hasContextMenu (applyDerivedState this) = hasContextMenu this"
  by (simp add: applyDerivedState_def split: option.splits)

lemma handleKeyPress_hasContextMenu:
  "hasContextMenu (fst (handleKeyPress this evt)) = hasContextMenu this"
  by (simp add: handleKeyPress_def setState_open_def Let_def)

lemma handleClickOutside_hasContextMenu:
  "hasContextMenu (handleClickOutside this evt) = hasContextMenu this"
  by (simp add: handleClickOutside_def setState_open_def)

lemma getTriggerPosition_hasContextMenu:
  "hasContextMenu (getTriggerPosition this) = hasContextMenu this"
  by (simp add: getTriggerPosition_def split: option.splits)

lemma handleHover_hasContextMenu:
  "hasContextMenu (handleHover this st rt) = hasContextMenu this"
  by (simp add: handleHover_def setState_open_def getTriggerPosition_hasContextMenu)

lemma elapse_hasContextMenu: "hasContextMenu (elapse ms this) = hasContextMenu this"
  by (simp add: elapse_def handleHover_hasContextMenu split: option.splits prod.splits)

lemma step_hasContextMenu:
  "hasContextMenu (step this a) =
     (case a of Mouse e \<Rightarrow> evt_type e = ''contextmenu'' | _ \<Rightarrow> hasContextMenu this)"
  by (cases a)
     (simp_all add: applyDerivedState_hasContextMenu handleMouse_hasContextMenu
        handleKeyPress_hasContextMenu handleClickOutside_hasContextMenu
        elapse_hasContextMenu getTriggerPosition_hasContextMenu receiveProps_def)

lemma mouse_events_snoc:
  "mouse_events (acts @ [a]) =
     mouse_events acts @ (case a of Mouse e \<Rightarrow> [e] | _ \<Rightarrow> [])"
  by (induction acts rule: mouse_events.induct) (simp_all split: action.splits)

lemma run_snoc: "run this (acts @ [a]) = step (run this acts) a"
  by (simp add: run_def)

lemma run_hasContextMenu:
  "hasContextMenu (run this acts) =
     (if mouse_events acts = [] then hasContextMenu this
      else evt_type (last (mouse_events acts)) = ''contextmenu'')"
proof (induction acts rule: rev_induct)
  case Nil
  show ?case by (simp add: run_def)
next
  case (snoc a acts)
  have "hasContextMenu (run this (acts @ [a])) =
      (case a of Mouse e \<Rightarrow> evt_type e = ''contextmenu'' | _ \<Rightarrow> hasContextMenu (run this acts))"
    by (simp only: run_snoc step_hasContextMenu)
  then show ?case
    by (cases a) (simp_all add: mouse_events_snoc snoc.IH)
qed

lemma mount_hasContextMenu: "\<not> hasContextMenu (mount rp)"
  by (simp add: mount_def applyDerivedState_hasContextMenu constructor_def)

text \<open>
  C4, as amended. In hover mode \<^verbatim>\<open>handleMouse\<close> ignores a \<^verbatim>\<open>mouseout\<close> or \<^verbatim>\<open>blur\<close> event
  (it schedules no close and changes nothing but the flag) exactly when the flag
  \<^verbatim>\<open>_hasContextMenu\<close> is set, and schedules the close otherwise. Only \<^verbatim>\<open>handleMouse\<close>
  writes the flag, and sets it exactly when the event it handles is a \<^verbatim>\<open>contextmenu\<close>;
  key presses, clicks outside, renders and the passing of time leave it as it is. So on
  a mounted tooltip the flag is set exactly when the last event that \<^verbatim>\<open>handleMouse\<close>
  handled was a \<^verbatim>\<open>contextmenu\<close>, whatever the other handlers have handled since.
\<close>

theorem contextmenu_flag_suppresses_close:
  "(\<not> truthy_bool (clickToOpen (props this)) \<and> evt_type evt \<in> {''mouseout'', ''blur''} \<longrightarrow>
      handleMouse this evt =
        (if hasContextMenu this then (this\<lparr>hasContextMenu := False\<rparr>, [])
         else (this\<lparr>hasContextMenu := False,
                     pending := Some ((Str ''out'', relatedTarget evt), debounce_wait)\<rparr>, [])))
   \<and> hasContextMenu (step this a) =
       (case a of Mouse e \<Rightarrow> evt_type e = ''contextmenu'' | _ \<Rightarrow> hasContextMenu this)
   \<and> hasContextMenu (run (mount rp) acts) =
       (mouse_events acts \<noteq> [] \<and> evt_type (last (mouse_events acts)) = ''contextmenu'')"
proof -
  have a: "\<not> truthy_bool (clickToOpen (props this)) \<and> evt_type evt \<in> {''mouseout'', ''blur''} \<longrightarrow>
      handleMouse this evt =
        (if hasContextMenu this then (this\<lparr>hasContextMenu := False\<rparr>, [])
         else (this\<lparr>hasContextMenu := False,
                     pending := Some ((Str ''out'', relatedTarget evt), debounce_wait)\<rparr>, []))"
    using handleMouse_hover_out [of this evt] by blast
  have b: "hasContextMenu (step this a) =
       (case a of Mouse e \<Rightarrow> evt_type e = ''contextmenu'' | _ \<Rightarrow> hasContextMenu this)"
    by (rule step_hasContextMenu)
  have c: "hasContextMenu (run (mount rp) acts) =
       (mouse_events acts \<noteq> [] \<and> evt_type (last (mouse_events acts)) = ''contextmenu'')"
    by (simp add: run_hasContextMenu mount_hasContextMenu)
  from a b c show ?thesis by blast
qed

theorem contextmenu_flag_suppresses_close_witness:
  "\<not> truthy_bool (clickToOpen (props context_tooltip))
   \<and> hasContextMenu context_tooltip
   \<and> handleMouse context_tooltip (mouse_event ''mouseout'' (Some 9))
       = (context_tooltip\<lparr>hasContextMenu := False\<rparr>, [])
   \<and> pending (fst (handleMouse open_tooltip (mouse_event ''blur'' (Some 9))))
       = Some ((Str ''out'', Some 9), 200)
   \<and> hasContextMenu (step context_tooltip (ClickOutside None))
   \<and> \<not> hasContextMenu (step context_tooltip (Mouse (mouse_event ''focus'' None)))
   \<and> hasContextMenu (run (mount no_props)
        [Mouse (mouse_event ''mouseover'' None), Mouse (mouse_event ''contextmenu'' None),
         KeyPress (key_event (Some ''a'') None), Elapse 200])"
  using contextmenu_flag_suppresses_close
      [of context_tooltip "mouse_event ''mouseout'' (Some 9)" "ClickOutside None" no_props
        "[Mouse (mouse_event ''mouseover'' None), Mouse (mouse_event ''contextmenu'' None),
          KeyPress (key_event (Some ''a'') None), Elapse 200]"]
    contextmenu_flag_suppresses_close
      [of open_tooltip "mouse_event ''blur'' (Some 9)"
        "Mouse (mouse_event ''focus'' None)" no_props "[]"]
  by (simp add: model_defs sample_defs Let_def)

text \<open>
  C4 as stated fails: after the \<^verbatim>\<open>contextmenu\<close> event the open tooltip handles a key
  press, which is not a \<^verbatim>\<open>contextmenu\<close> event and yet leaves the flag set; the
  \<^verbatim>\<open>mouseout\<close> after it, which does not immediately follow the \<^verbatim>\<open>contextmenu\<close>, is still
  ignored, and the tooltip is still open when the window has passed.
\<close>

theorem keypress_keeps_suppression_counterexample:
  "\<not> truthy_bool (clickToOpen (props context_tooltip))
   \<and> evt_type (key_event (Some ''a'') None) \<noteq> ''contextmenu''
   \<and> hasContextMenu (step context_tooltip (KeyPress (key_event (Some ''a'') None)))
   \<and> evt_type (mouse_event ''mouseout'' (Some 9)) = ''mouseout''
   \<and> pending (run context_tooltip
        [KeyPress (key_event (Some ''a'') None), Mouse (mouse_event ''mouseout'' (Some 9))]) = None
   \<and> open_st (state (run context_tooltip
        [KeyPress (key_event (Some ''a'') None), Mouse (mouse_event ''mouseout'' (Some 9)),
         Elapse 200])) = Some True"
  by (simp add: model_defs sample_defs Let_def)

subsection \<open>Hover mode and the debounce window\<close>

lemma elapse_before:
  "ms < due \<Longrightarrow> state (elapse ms (this\<lparr>pending := Some (args, due)\<rparr>)) = state this"
  by (simp add: elapse_def)

lemma elapse_after:
  "due \<le> ms \<Longrightarrow> elapse ms (this\<lparr>pending := Some (args, due)\<rparr>)
     = handleHover (this\<lparr>pending := None\<rparr>) (fst args) (snd args)"
  by (simp add: elapse_def)

lemma handleHover_over: "open_st (state (handleHover this (Str ''over'') rt)) = Some True"
  by (simp add: handleHover_def setState_open_def getTriggerPosition_def split: option.splits)

lemma handleHover_out:
  "handleHover this (Str ''out'') rt =
     (if (\<exists>n. rt = Some n \<and>
            ((\<exists>el. triggerEl this = Some el \<and> has_contains el \<and> n \<in> set (subtree el))
             \<or> (\<exists>el. tooltipEl this = Some el \<and> n \<in> set (subtree el))))
      then this
      else this\<lparr>state := (state this)\<lparr>open_st := Some False\<rparr>\<rparr>)"
  by (auto simp add: handleHover_def shouldPreventClose_hover_def contains_def
      setState_open_def split: option.splits)

lemma handleMouse_hover_click:
  "\<not> truthy_bool (clickToOpen (props this)) \<Longrightarrow> evt_type evt = ''click'' \<Longrightarrow>
     handleMouse this evt =
       (this\<lparr>hasContextMenu := False,
              pending := Some ((Str ''click'', relatedTarget evt), debounce_wait)\<rparr>, [])"
  by (simp add: handleMouse_def Let_def lookup_state_def state_table_def
      debouncedHandleHover_def)

lemma handleHover_click: "open_st (state (handleHover this (Str ''click'') None)) = Some False"
  by (simp add: handleHover_def shouldPreventClose_hover_def setState_open_def)

text \<open>
  C2, as amended. In hover mode \<^verbatim>\<open>handleMouse\<close> itself leaves the state alone, and the
  state stays as it was while less than the debounce window has passed. When the window
  has passed and no other handler of the component has run in it, a \<^verbatim>\<open>mouseover\<close> or
  \<^verbatim>\<open>focus\<close> event has set the open state to \<^verbatim>\<open>true\<close>; a \<^verbatim>\<open>mouseout\<close> or \<^verbatim>\<open>blur\<close> event
  handled while the flag \<^verbatim>\<open>_hasContextMenu\<close> is clear has set it to \<^verbatim>\<open>false\<close>, unless its
  \<^verbatim>\<open>relatedTarget\<close> is contained in the tooltip panel element, or in a trigger element
  that has a \<^verbatim>\<open>contains\<close> method; then the state is unchanged. A \<^verbatim>\<open>mouseout\<close> or \<^verbatim>\<open>blur\<close>
  event handled while the flag is set schedules nothing; \<^verbatim>\<open>handleMouse\<close> leaves the flag
  set exactly when the event it handles is a \<^verbatim>\<open>contextmenu\<close>. A further event in the
  window is not covered: a \<^verbatim>\<open>click\<close>, for one, replaces what is pending, and with no
  \<^verbatim>\<open>relatedTarget\<close> closes the tooltip when its own window has passed.
\<close>

theorem hover_after_debounce_window:
  assumes hover: "\<not> truthy_bool (clickToOpen (props this))"
    and before: "d < debounce_wait" and after: "debounce_wait \<le> ms"
  shows "(evt_type evt \<in> {''mouseover'', ''focus''} \<longrightarrow>
            state (fst (handleMouse this evt)) = state this
          \<and> state (elapse d (fst (handleMouse this evt))) = state this
          \<and> open_st (state (elapse ms (fst (handleMouse this evt)))) = Some True)
       \<and> (evt_type evt \<in> {''mouseout'', ''blur''} \<and> \<not> hasContextMenu this \<longrightarrow>
            state (fst (handleMouse this evt)) = state this
          \<and> state (elapse d (fst (handleMouse this evt))) = state this
          \<and> state (elapse ms (fst (handleMouse this evt))) =
              (if (\<exists>n. relatedTarget evt = Some n \<and>
                     ((\<exists>el. triggerEl this = Some el \<and> has_contains el \<and> n \<in> set (subtree el))
                      \<or> (\<exists>el. tooltipEl this = Some el \<and> n \<in> set (subtree el))))
               then state this
               else (state this)\<lparr>open_st := Some False\<rparr>))
       \<and> (evt_type evt \<in> {''mouseout'', ''blur''} \<and> hasContextMenu this \<longrightarrow>
            handleMouse this evt = (this\<lparr>hasContextMenu := False\<rparr>, []))
       \<and> hasContextMenu (fst (handleMouse this evt)) = (evt_type evt = ''contextmenu'')
       \<and> (evt_type e2 = ''click'' \<longrightarrow>
            pending (fst (handleMouse (fst (handleMouse this evt)) e2))
              = Some ((Str ''click'', relatedTarget e2), debounce_wait)
          \<and> (relatedTarget e2 = None \<longrightarrow>
               open_st (state (elapse ms (fst (handleMouse (fst (handleMouse this evt)) e2))))
                 = Some False))"
proof -
  have a: "evt_type evt \<in> {''mouseover'', ''focus''} \<longrightarrow>
            state (fst (handleMouse this evt)) = state this
          \<and> state (elapse d (fst (handleMouse this evt))) = state this
          \<and> open_st (state (elapse ms (fst (handleMouse this evt)))) = Some True"
  proof
    assume h: "evt_type evt \<in> {''mouseover'', ''focus''}"
    let ?t = "this\<lparr>hasContextMenu := False\<rparr>"
    have m: "fst (handleMouse this evt) =
        ?t\<lparr>pending := Some ((Str ''over'', relatedTarget evt), debounce_wait)\<rparr>"
      using handleMouse_hover_over [OF hover h] by simp
    have 1: "state (fst (handleMouse this evt)) = state this"
      by (simp add: m)
    have 2: "state (elapse d (fst (handleMouse this evt))) = state this"
      by (simp add: m elapse_before [OF before])
    have 3: "open_st (state (elapse ms (fst (handleMouse this evt)))) = Some True"
      by (simp add: m elapse_after [OF after] handleHover_over)
    from 1 2 3 show "state (fst (handleMouse this evt)) = state this
          \<and> state (elapse d (fst (handleMouse this evt))) = state this
          \<and> open_st (state (elapse ms (fst (handleMouse this evt)))) = Some True"
      by simp
  qed
  have b: "evt_type evt \<in> {''mouseout'', ''blur''} \<and> \<not> hasContextMenu this \<longrightarrow>
            state (fst (handleMouse this evt)) = state this
          \<and> state (elapse d (fst (handleMouse this evt))) = state this
          \<and> state (elapse ms (fst (handleMouse this evt))) =
              (if (\<exists>n. relatedTarget evt = Some n \<and>
                     ((\<exists>el. triggerEl this = Some el \<and> has_contains el \<and> n \<in> set (subtree el))
                      \<or> (\<exists>el. tooltipEl this = Some el \<and> n \<in> set (subtree el))))
               then state this
               else (state this)\<lparr>open_st := Some False\<rparr>)"
  proof
    assume h: "evt_type evt \<in> {''mouseout'', ''blur''} \<and> \<not> hasContextMenu this"
    let ?t = "this\<lparr>hasContextMenu := False\<rparr>"
    have m: "fst (handleMouse this evt) =
        ?t\<lparr>pending := Some ((Str ''out'', relatedTarget evt), debounce_wait)\<rparr>"
      using handleMouse_hover_out [OF hover, of evt] h by simp
    have 1: "state (fst (handleMouse this evt)) = state this"
      by (simp add: m)
    have 2: "state (elapse d (fst (handleMouse this evt))) = state this"
      by (simp add: m elapse_before [OF before])
    have 3: "state (elapse ms (fst (handleMouse this evt))) =
              (if (\<exists>n. relatedTarget evt = Some n \<and>
                     ((\<exists>el. triggerEl this = Some el \<and> has_contains el \<and> n \<in> set (subtree el))
                      \<or> (\<exists>el. tooltipEl this = Some el \<and> n \<in> set (subtree el))))
               then state this
               else (state this)\<lparr>open_st := Some False\<rparr>)"
    proof -
      have e: "elapse ms (fst (handleMouse this evt)) =
          handleHover (?t\<lparr>pending := None\<rparr>) (Str ''out'') (relatedTarget evt)"
        by (simp add: m elapse_after [OF after])
      show ?thesis
        unfolding e handleHover_out by auto
    qed
    from 1 2 3 show "state (fst (handleMouse this evt)) = state this
          \<and> state (elapse d (fst (handleMouse this evt))) = state this
          \<and> state (elapse ms (fst (handleMouse this evt))) =
              (if (\<exists>n. relatedTarget evt = Some n \<and>
                     ((\<exists>el. triggerEl this = Some el \<and> has_contains el \<and> n \<in> set (subtree el))
                      \<or> (\<exists>el. tooltipEl this = Some el \<and> n \<in> set (subtree el))))
               then state this
               else (state this)\<lparr>open_st := Some False\<rparr>)"
      by simp
  qed
  have c: "evt_type evt \<in> {''mouseout'', ''blur''} \<and> hasContextMenu this \<longrightarrow>
            handleMouse this evt = (this\<lparr>hasContextMenu := False\<rparr>, [])"
    using handleMouse_hover_out [OF hover, of evt] by simp
  have f: "hasContextMenu (fst (handleMouse this evt)) = (evt_type evt = ''contextmenu'')"
    by (rule handleMouse_hasContextMenu)
  have e: "evt_type e2 = ''click'' \<longrightarrow>
            pending (fst (handleMouse (fst (handleMouse this evt)) e2))
              = Some ((Str ''click'', relatedTarget e2), debounce_wait)
          \<and> (relatedTarget e2 = None \<longrightarrow>
               open_st (state (elapse ms (fst (handleMouse (fst (handleMouse this evt)) e2))))
                 = Some False)"
  proof
    assume h: "evt_type e2 = ''click''"
    let ?t = "fst (handleMouse this evt)"
    have p: "\<not> truthy_bool (clickToOpen (props ?t))"
      using hover by (simp add: handleMouse_props)
    have m: "fst (handleMouse ?t e2) =
        ?t\<lparr>hasContextMenu := False,
            pending := Some ((Str ''click'', relatedTarget e2), debounce_wait)\<rparr>"
      using handleMouse_hover_click [OF p h] by simp
    have 1: "pending (fst (handleMouse ?t e2))
              = Some ((Str ''click'', relatedTarget e2), debounce_wait)"
      by (simp add: m)
    have 2: "relatedTarget e2 = None \<longrightarrow>
               open_st (state (elapse ms (fst (handleMouse ?t e2)))) = Some False"
      by (simp add: m elapse_after [OF after] handleHover_click)
    from 1 2 show "pending (fst (handleMouse ?t e2))
              = Some ((Str ''click'', relatedTarget e2), debounce_wait)
          \<and> (relatedTarget e2 = None \<longrightarrow>
               open_st (state (elapse ms (fst (handleMouse ?t e2)))) = Some False)"
      by simp
  qed
  from a b c f e show ?thesis by blast
qed

theorem hover_after_debounce_window_witness:
  "\<not> truthy_bool (clickToOpen (props hover_tooltip))
   \<and> (150::nat) < debounce_wait \<and> debounce_wait \<le> 200
   \<and> open_st (state hover_tooltip) = Some False
   \<and> open_st (state (elapse 150 (fst (handleMouse hover_tooltip (mouse_event ''mouseover'' None)))))
       = Some False
   \<and> open_st (state (elapse 200 (fst (handleMouse hover_tooltip (mouse_event ''mouseover'' None)))))
       = Some True
   \<and> \<not> hasContextMenu open_tooltip
   \<and> open_st (state (elapse 200 (fst (handleMouse open_tooltip (mouse_event ''mouseout'' (Some 9))))))
       = Some False
   \<and> open_st (state (elapse 200 (fst (handleMouse open_tooltip (mouse_event ''blur'' (Some 5))))))
       = Some True
   \<and> hasContextMenu context_tooltip
   \<and> handleMouse context_tooltip (mouse_event ''mouseout'' (Some 9))
       = (context_tooltip\<lparr>hasContextMenu := False\<rparr>, [])
   \<and> open_st (state (elapse 200 (fst (handleMouse
        (fst (handleMouse hover_tooltip (mouse_event ''mouseover'' None)))
        (mouse_event ''click'' None))))) = Some False"
  using hover_after_debounce_window
      [of hover_tooltip 150 200 "mouse_event ''mouseover'' None" "mouse_event ''click'' None"]
    hover_after_debounce_window
      [of open_tooltip 150 200 "mouse_event ''mouseout'' (Some 9)" "mouse_event ''click'' None"]
    hover_after_debounce_window
      [of open_tooltip 150 200 "mouse_event ''blur'' (Some 5)" "mouse_event ''click'' None"]
    hover_after_debounce_window
      [of context_tooltip 150 200 "mouse_event ''mouseout'' (Some 9)" "mouse_event ''click'' None"]
  by (simp add: model_defs sample_defs Let_def)

text \<open>
  C2 as stated fails: the open tooltip has just handled a \<^verbatim>\<open>contextmenu\<close> event; the
  \<^verbatim>\<open>mouseout\<close> that follows, towards a node in neither the trigger nor the panel,
  schedules nothing, and the tooltip is still open when the window has passed.
\<close>

theorem hover_close_counterexample:
  "\<not> truthy_bool (clickToOpen (props context_tooltip))
   \<and> evt_type (mouse_event ''mouseout'' (Some 9)) = ''mouseout''
   \<and> relatedTarget (mouse_event ''mouseout'' (Some 9)) = Some 9
   \<and> triggerEl context_tooltip = Some sample_trigger \<and> 9 \<notin> set (subtree sample_trigger)
   \<and> tooltipEl context_tooltip = Some sample_panel \<and> 9 \<notin> set (subtree sample_panel)
   \<and> open_st (state context_tooltip) = Some True
   \<and> open_st (state (elapse 200 (fst (handleMouse context_tooltip (mouse_event ''mouseout'' (Some 9))))))
       = Some True
   \<and> pending (fst (handleMouse context_tooltip (mouse_event ''mouseout'' (Some 9)))) = None"
  by (simp add: model_defs sample_defs Let_def)

subsection \<open>Which events change the open state\<close>

text \<open>
  C8 as stated fails: no \<^verbatim>\<open>contextmenu\<close> event changes the open state when it is handled.
\<close>

theorem contextmenu_changes_open_counterexample:
  "\<not> (\<exists>this evt. evt_type evt = ''contextmenu''
          \<and> open_st (state (fst (handleMouse this evt))) \<noteq> open_st (state this))"
proof
  assume "\<exists>this evt. evt_type evt = ''contextmenu''
          \<and> open_st (state (fst (handleMouse this evt))) \<noteq> open_st (state this)"
  then obtain this evt where h: "evt_type evt = ''contextmenu''"
    and n: "open_st (state (fst (handleMouse this evt))) \<noteq> open_st (state this)"
    by blast
  have "handleMouse this evt = (this\<lparr>hasContextMenu := True\<rparr>, [])"
    using h by (simp add: handleMouse_def Let_def lookup_state_contextmenu)
  with n show False by simp
qed

text \<open>
  C8, as amended. A hover event (once the debounce window has passed), a click in click
  mode, an Enter key press and a click outside each change the open state of some
  tooltip. A \<^verbatim>\<open>contextmenu\<close> event never does: handling it changes neither the state nor
  what is pending, and only sets the flag that makes the next \<^verbatim>\<open>mouseout\<close> or \<^verbatim>\<open>blur\<close>
  be ignored.
\<close>

theorem events_that_change_open:
  "open_st (state hover_tooltip) = Some False
   \<and> open_st (state (run hover_tooltip [Mouse (mouse_event ''mouseover'' None), Elapse 200]))
       = Some True
   \<and> open_st (state click_tooltip) = Some False
   \<and> open_st (state (step click_tooltip (Mouse (mouse_event ''click'' None)))) = Some True
   \<and> open_st (state (step hover_tooltip (KeyPress (key_event (Some ''Enter'') None)))) = Some True
   \<and> open_st (state open_tooltip) = Some True
   \<and> open_st (state (step open_tooltip (ClickOutside (Some (mouse_event ''click'' None)))))
       = Some False
   \<and> (\<forall>this evt. evt_type evt = ''contextmenu'' \<longrightarrow>
         state (fst (handleMouse this evt)) = state this
       \<and> pending (fst (handleMouse this evt)) = pending this
       \<and> snd (handleMouse this evt) = []
       \<and> hasContextMenu (fst (handleMouse this evt))
       \<and> step this (Mouse evt) = applyDerivedState (this\<lparr>hasContextMenu := True\<rparr>))"
proof -
  have c: "\<forall>this evt. evt_type evt = ''contextmenu'' \<longrightarrow>
         state (fst (handleMouse this evt)) = state this
       \<and> pending (fst (handleMouse this evt)) = pending this
       \<and> snd (handleMouse this evt) = []
       \<and> hasContextMenu (fst (handleMouse this evt))
       \<and> step this (Mouse evt) = applyDerivedState (this\<lparr>hasContextMenu := True\<rparr>)"
  proof (intro allI impI)
    fix this :: tooltip and evt :: event
    assume h: "evt_type evt = ''contextmenu''"
    have "handleMouse this evt = (this\<lparr>hasContextMenu := True\<rparr>, [])"
      using h by (simp add: handleMouse_def Let_def lookup_state_contextmenu)
    then show "state (fst (handleMouse this evt)) = state this
       \<and> pending (fst (handleMouse this evt)) = pending this
       \<and> snd (handleMouse this evt) = []
       \<and> hasContextMenu (fst (handleMouse this evt))
       \<and> step this (Mouse evt) = applyDerivedState (this\<lparr>hasContextMenu := True\<rparr>)"
      by simp
  qed
  have e: "open_st (state hover_tooltip) = Some False
   \<and> open_st (state (run hover_tooltip [Mouse (mouse_event ''mouseover'' None), Elapse 200]))
       = Some True
   \<and> open_st (state click_tooltip) = Some False
   \<and> open_st (state (step click_tooltip (Mouse (mouse_event ''click'' None)))) = Some True
   \<and> open_st (state (step hover_tooltip (KeyPress (key_event (Some ''Enter'') None)))) = Some True
   \<and> open_st (state open_tooltip) = Some True
   \<and> open_st (state (step open_tooltip (ClickOutside (Some (mouse_event ''click'' None)))))
       = Some False"
    by (simp add: model_defs sample_defs Let_def)
  from e c show ?thesis by blast
qed

theorem events_that_change_open_witness:
  "evt_type (mouse_event ''contextmenu'' None) = ''contextmenu''
   \<and> state (fst (handleMouse open_tooltip (mouse_event ''contextmenu'' None))) = state open_tooltip
   \<and> open_st (state (fst (handleMouse open_tooltip (mouse_event ''contextmenu'' None)))) = Some True
   \<and> hasContextMenu (fst (handleMouse open_tooltip (mouse_event ''contextmenu'' None)))"
proof -
  have "evt_type (mouse_event ''contextmenu'' None) = ''contextmenu''"
    by (simp add: mouse_event_def)
  with events_that_change_open show ?thesis
    by (simp add: sample_defs model_defs)
qed

subsection \<open>The \<^verbatim>\<open>open\<close> prop\<close>

lemma applyDerivedState_in_sync: "in_sync (applyDerivedState this)"
  by (simp add: in_sync_def applyDerivedState_def getDerivedStateFromProps_def)

lemma applyDerivedState_id: "in_sync this \<Longrightarrow> applyDerivedState this = this"
  by (simp add: in_sync_def applyDerivedState_def getDerivedStateFromProps_def)

lemma step_in_sync: "in_sync this \<Longrightarrow> in_sync (step this a)"
  by (cases a) (simp_all add: applyDerivedState_in_sync receiveProps_def, simp_all add: in_sync_def)

lemma run_in_sync: "in_sync this \<Longrightarrow> in_sync (run this acts)"
  unfolding run_def
  by (induction acts arbitrary: this) (simp_all add: step_in_sync)

lemma mount_in_sync: "in_sync (mount rp)"
  by (simp add: mount_def applyDerivedState_in_sync)

text \<open>
  C7. A mounted tooltip is open exactly when its \<^verbatim>\<open>open\<close> prop is, and the prop is
  \<^verbatim>\<open>false\<close> when the parent passes none. \<^verbatim>\<open>getDerivedStateFromProps\<close> returns \<^verbatim>\<open>null\<close>
  when \<^verbatim>\<open>prevOpen\<close> is the \<^verbatim>\<open>open\<close> prop, and the prop for both fields otherwise. Whatever
  has happened to the tooltip since it was mounted, \<^verbatim>\<open>prevOpen\<close> is the \<^verbatim>\<open>open\<close> prop of
  the previous render; so a render with new props overwrites the open state with the
  prop exactly when the prop differs from its value at the previous render, and leaves
  the state, with what events have made of it, as it is otherwise.
\<close>

theorem open_follows_prop_changes:
  "open_st (state (mount rp)) = Some (open_prop (defaultProps rp))
   \<and> open_prop (defaultProps rp) = (case open_in rp of None \<Rightarrow> False | Some b \<Rightarrow> b)
   \<and> getDerivedStateFromProps p st =
       (if prevOpen st = Some (open_prop p) then None
        else Some \<lparr> derived_open = open_prop p, derived_prevOpen = open_prop p \<rparr>)
   \<and> prevOpen (state (run (mount rp) acts)) = Some (open_prop (props (run (mount rp) acts)))
   \<and> (getDerivedStateFromProps (defaultProps rp') (state (run (mount rp) acts)) = None
        \<longleftrightarrow> open_prop (defaultProps rp') = open_prop (props (run (mount rp) acts)))
   \<and> state (receiveProps rp' (run (mount rp) acts)) =
       (if open_prop (defaultProps rp') = open_prop (props (run (mount rp) acts))
        then state (run (mount rp) acts)
        else (state (run (mount rp) acts))
               \<lparr>open_st := Some (open_prop (defaultProps rp')),
                prevOpen := Some (open_prop (defaultProps rp'))\<rparr>)"
proof -
  let ?t = "run (mount rp) acts"
  have s: "prevOpen (state ?t) = Some (open_prop (props ?t))"
    using run_in_sync [OF mount_in_sync, of rp acts] by (simp add: in_sync_def)
  have 1: "open_st (state (mount rp)) = Some (open_prop (defaultProps rp))"
    by (simp add: mount_def applyDerivedState_def getDerivedStateFromProps_def
        constructor_def initial_state_def)
  have 2: "open_prop (defaultProps rp) = (case open_in rp of None \<Rightarrow> False | Some b \<Rightarrow> b)"
    by (simp add: defaultProps_def or_default_def)
  have 3: "getDerivedStateFromProps p st =
       (if prevOpen st = Some (open_prop p) then None
        else Some \<lparr> derived_open = open_prop p, derived_prevOpen = open_prop p \<rparr>)"
    by (simp add: getDerivedStateFromProps_def)
  have 4: "getDerivedStateFromProps (defaultProps rp') (state ?t) = None
        \<longleftrightarrow> open_prop (defaultProps rp') = open_prop (props ?t)"
    using s by (auto simp add: getDerivedStateFromProps_def)
  have 5: "state (receiveProps rp' ?t) =
       (if open_prop (defaultProps rp') = open_prop (props ?t)
        then state ?t
        else (state ?t)
               \<lparr>open_st := Some (open_prop (defaultProps rp')),
                prevOpen := Some (open_prop (defaultProps rp'))\<rparr>)"
    using s by (auto simp add: receiveProps_def applyDerivedState_def getDerivedStateFromProps_def)
  from 1 2 3 s 4 5 show ?thesis by blast
qed

theorem open_follows_prop_changes_witness:
  "open_st (state (mount no_props)) = Some False
   \<and> open_st (state open_tooltip) = Some True
   \<and> open_tooltip = run (mount no_props)
       [AttachTrigger (Some sample_trigger), Mouse (mouse_event ''mouseover'' None),
        Elapse 200, AttachTooltip (Some sample_panel)]
   \<and> open_st (state (receiveProps no_props open_tooltip)) = Some True
   \<and> open_st (state (receiveProps (no_props\<lparr>open_in := Some True\<rparr>) hover_tooltip)) = Some True
   \<and> open_st (state (receiveProps (no_props\<lparr>open_in := Some False\<rparr>)
        (receiveProps (no_props\<lparr>open_in := Some True\<rparr>) hover_tooltip))) = Some False"
  using open_follows_prop_changes [of no_props "defaultProps no_props" initial_state
      "[AttachTrigger (Some sample_trigger), Mouse (mouse_event ''mouseover'' None),
        Elapse 200, AttachTooltip (Some sample_panel)]" no_props]
  by (simp add: model_defs sample_defs Let_def)

subsection \<open>The menu offset\<close>

lemma px5: "Number_of (px_match ''5px'') = Num 5"
  by (simp add: px_match_def Number_of_def is_digit_def digits_value_def Let_def)

lemma px_auto: "Number_of (px_match ''auto'') = NaN"
  by (simp add: px_match_def Number_of_def is_digit_def digits_value_def Let_def)

lemma px_m7: "Number_of (px_match ''-7px'') = Num (- 7)"
  by (simp add: px_match_def Number_of_def is_digit_def digits_value_def Let_def)

lemma px_empty: "Number_of (px_match []) = NaN"
  by (simp add: px_match_def Number_of_def is_digit_def digits_value_def Let_def)

text \<open>
  C9, as amended. \<^verbatim>\<open>getMenuOffset\<close> returns \<^verbatim>\<open>undefined\<close> exactly when the parsed
  \<^verbatim>\<open>border-bottom-width\<close> is \<^verbatim>\<open>NaN\<close>. Otherwise it returns the offset with \<^verbatim>\<open>left\<close> and
  \<^verbatim>\<open>top\<close> zero, but for \<^verbatim>\<open>top\<close> (directions top and bottom) or \<^verbatim>\<open>left\<close> (directions left
  and right), which is \<^verbatim>\<open>sqrt(borderBottomWidth^2 * 2) - arrowPosition\<close>; the arrow
  position is parsed from the property \<^verbatim>\<open>right\<close>, \<^verbatim>\<open>bottom\<close>, \<^verbatim>\<open>left\<close> or \<^verbatim>\<open>top\<close> for the
  direction left, top, right or bottom, and is -6 when the parsed value is \<^verbatim>\<open>NaN\<close> or
  zero. Numbers are read as the reals they denote.
\<close>

theorem getMenuOffset_formula:
  "getMenuOffset arrowStyle menuDirection =
     (case Number_of (px_match (arrowStyle ''border-bottom-width'')) of
        NaN \<Rightarrow> None
      | Num borderBottomWidth \<Rightarrow>
          (let arrowPosition =
                 (case Number_of (px_match (arrowStyle
                         (case menuDirection of
                            DIRECTION_LEFT \<Rightarrow> ''right''
                          | DIRECTION_TOP \<Rightarrow> ''bottom''
                          | DIRECTION_RIGHT \<Rightarrow> ''left''
                          | DIRECTION_BOTTOM \<Rightarrow> ''top''))) of
                    NaN \<Rightarrow> - 6
                  | Num a \<Rightarrow> if a = 0 then - 6 else a);
               adjustment = sqrt (borderBottomWidth ^ 2 * 2) - arrowPosition
           in if menuDirection \<in> {DIRECTION_TOP, DIRECTION_BOTTOM}
              then Some \<lparr> left_off = 0, top_off = adjustment \<rparr>
              else Some \<lparr> left_off = adjustment, top_off = 0 \<rparr>))"
  by (cases menuDirection)
     (simp_all add: getMenuOffset_def arrowPositionProp_def menuPositionAdjustmentProp_def
        set_offset_def Let_def split: jsnum.splits)

theorem getMenuOffset_formula_witness:
  "getMenuOffset sample_style DIRECTION_TOP = Some \<lparr> left_off = 0, top_off = sqrt 50 + 7 \<rparr>
   \<and> getMenuOffset sample_style DIRECTION_LEFT = Some \<lparr> left_off = sqrt 50 + 6, top_off = 0 \<rparr>
   \<and> getMenuOffset (\<lambda>name. []) DIRECTION_RIGHT = None"
  using getMenuOffset_formula [of sample_style DIRECTION_TOP]
    getMenuOffset_formula [of sample_style DIRECTION_LEFT]
    getMenuOffset_formula [of "\<lambda>name. []" DIRECTION_RIGHT]
  by (simp add: sample_style_def px5 px_auto px_m7 px_empty)

text \<open>
  C9 as stated fails: for the direction bottom the arrow position is parsed from
  \<^verbatim>\<open>top\<close>, here \<^verbatim>\<open>auto\<close>, so the parsed value is \<^verbatim>\<open>NaN\<close>; the function does not return
  \<^verbatim>\<open>undefined\<close> but the offset computed with the default -6.
\<close>

theorem getMenuOffset_NaN_counterexample:
  "Number_of (px_match (sample_style (arrowPositionProp DIRECTION_BOTTOM))) = NaN
   \<and> getMenuOffset sample_style DIRECTION_BOTTOM = Some \<lparr> left_off = 0, top_off = sqrt 50 + 6 \<rparr>"
  by (simp add: getMenuOffset_def arrowPositionProp_def menuPositionAdjustmentProp_def
      set_offset_def sample_style_def px5 px_auto)

end
